theory Spec2Isabelle
  imports Complex_Main
begin

section \<open>Enumerations and the tiled matrix\<close>

datatype Side = Left | Right
datatype Diag = Unit | NonUnit
datatype Uplo = Lower | Upper | General

text \<open>
  The norm selector. The source names \<open>Norm::One\<close> and \<open>Norm::Inf\<close>; the enum's
  declaration is not part of the sources, so the remaining selectors stand for every value
  that is neither of the two.
\<close>

datatype Norm = Norm_One | Norm_Two | Norm_Inf | Norm_Fro | Norm_Max

text \<open>
  The template argument \<open>scalar_t\<close>: the four explicit instantiations at the end of both
  source files.
\<close>

datatype scalar_kind = float | double | complex_float | complex_double

text \<open>
  The distributed tiled matrix, as far as the two source files look into it: \<open>m\<close> is
  \<open>A.m()\<close>, \<open>mt\<close> and \<open>nt\<close> are the tile counts, \<open>tiles\<close> is the tile storage addressed by
  \<open>A(i, j)\<close>, \<open>tileRank\<close> the owner of a tile and \<open>mpiSize\<close> the number of processes of
  \<open>A.mpiComm()\<close>, whose ranks are \<open>0 ..< mpiSize\<close>. Indices are \<open>int64_t\<close> in the source; no
  index computed here leaves the range \<open>-2 .. mt\<close>, so they are integers.
\<close>

record 't Matrix =
  m :: int
  mt :: int
  nt :: int
  tiles :: "int \<times> int \<Rightarrow> 't option"
  tileRank :: "int \<times> int \<Rightarrow> nat"
  mpiSize :: nat

text \<open>Triangular and conjugate-transposed views share the storage of the matrix.\<close>

datatype 't view = TriangularMatrix Uplo Diag "'t Matrix" | conj_transpose "'t view"

section \<open>The real type of the scalar type\<close>

text \<open>
  \<open>blas::real_type<scalar_t>\<close> is \<open>float\<close> or \<open>double\<close>: an IEEE 754 binary format with
  NaN and the two infinities. The two zeros compare equal and are one value here; the code
  below never divides by zero, which is the only place where their sign could show.
\<close>

datatype real_t = NaN | PInf | NInf | Fin real

fun isnan :: "real_t \<Rightarrow> bool" where
  "isnan NaN = True"
| "isnan _ = False"

fun r_less :: "real_t \<Rightarrow> real_t \<Rightarrow> bool" where
  "r_less (Fin x) (Fin y) = (x < y)"
| "r_less (Fin x) PInf = True"
| "r_less NInf (Fin y) = True"
| "r_less NInf PInf = True"
| "r_less _ _ = False"

fun r_eq :: "real_t \<Rightarrow> real_t \<Rightarrow> bool" where
  "r_eq (Fin x) (Fin y) = (x = y)"
| "r_eq PInf PInf = True"
| "r_eq NInf NInf = True"
| "r_eq _ _ = False"

definition r_le :: "real_t \<Rightarrow> real_t \<Rightarrow> bool" where
  "r_le a b = (r_less a b \<or> r_eq a b)"

fun precision :: "scalar_kind \<Rightarrow> nat" where
  "precision float = 24"
| "precision complex_float = 24"
| "precision double = 53"
| "precision complex_double = 53"

fun emax :: "scalar_kind \<Rightarrow> int" where
  "emax float = 127"
| "emax complex_float = 127"
| "emax double = 1023"
| "emax complex_double = 1023"

definition emin :: "scalar_kind \<Rightarrow> int" where
  "emin k = 1 - emax k"

text \<open>Round to nearest, ties to even: the default rounding of the format.\<close>

definition round_half_even :: "real \<Rightarrow> int" where
  "round_half_even q =
     (let f = \<lfloor>q\<rfloor> in
      if q - of_int f < 1 / 2 then f
      else if 1 / 2 < q - of_int f then f + 1
      else if even f then f else f + 1)"

text \<open>
  Magnitudes from \<open>(2 - 2^(-p)) * 2^emax\<close> on, the midpoint between the largest finite
  number and \<open>2^(emax + 1)\<close>, round to an infinity.
\<close>

definition overflow_threshold :: "scalar_kind \<Rightarrow> real" where
  "overflow_threshold k = (2 - 2 powi (- int (precision k))) * 2 powi (emax k)"

definition quantum :: "scalar_kind \<Rightarrow> real \<Rightarrow> real" where
  "quantum k x = 2 powi (max \<lfloor>log 2 \<bar>x\<bar>\<rfloor> (emin k) - (int (precision k) - 1))"

definition fround :: "scalar_kind \<Rightarrow> real \<Rightarrow> real_t" where
  "fround k x =
     (if x = 0 then Fin 0
      else if overflow_threshold k \<le> \<bar>x\<bar> then (if 0 < x then PInf else NInf)
      else Fin (of_int (round_half_even (x / quantum k x)) * quantum k x))"

text \<open>Division of the format; a zero divisor is read as \<open>+0\<close>.\<close>

fun fdiv :: "scalar_kind \<Rightarrow> real_t \<Rightarrow> real_t \<Rightarrow> real_t" where
  "fdiv k NaN _ = NaN"
| "fdiv k _ NaN = NaN"
| "fdiv k (Fin x) (Fin y) =
     (if y = 0 then (if x = 0 then NaN else if 0 < x then PInf else NInf)
      else fround k (x / y))"
| "fdiv k (Fin x) _ = Fin 0"
| "fdiv k PInf (Fin y) = (if 0 \<le> y then PInf else NInf)"
| "fdiv k NInf (Fin y) = (if 0 \<le> y then NInf else PInf)"
| "fdiv k _ _ = NaN"

text \<open>
  The implicit conversion of a \<open>double\<close> to the real type of the template argument: none for
  the two double kinds, one rounding to \<open>float\<close> for the two float kinds.
\<close>

fun from_double :: "scalar_kind \<Rightarrow> real_t \<Rightarrow> real_t" where
  "from_double double v = v"
| "from_double complex_double v = v"
| "from_double k (Fin x) = fround k x"
| "from_double k v = v"

text \<open>The values of the format: NaN, the infinities and the reals that rounding leaves alone.\<close>

fun is_real_t :: "scalar_kind \<Rightarrow> real_t \<Rightarrow> bool" where
  "is_real_t k (Fin x) = (fround k x = Fin x)"
| "is_real_t k v = True"

section \<open>gecondest\<close>

text \<open>
  Every process of the communicator runs \<open>gecondest\<close> with the same arguments. The scalars
  \<open>Ainvnorm\<close>, \<open>kase\<close> and \<open>isave\<close> are local variables, one copy per process; \<open>X\<close>, \<open>V\<close>
  and \<open>isgn\<close> are distributed matrices, one object for all processes.
\<close>

record locals =
  Ainvnorm :: real_t
  kase :: int
  isave :: "int list"

record ('t, 'g) world =
  X :: "'t Matrix"
  V :: "'t Matrix"
  isgn :: "'g Matrix"
  proc :: "nat \<Rightarrow> locals"

text \<open>
  What the function calls and is not part of the sources: the estimator step
  \<open>internal::norm1est\<close>, which updates the three matrices and, on every process, the three
  local variables it gets by pointer or reference; the triangular solve \<open>slate::trsm\<close>; and
  the storage that \<open>insertLocalTiles\<close> hands out, which the code does not initialise.
\<close>

record ('t, 'g, 's, 'o) collaborators =
  norm1est :: "('t, 'g) world \<Rightarrow> ('t, 'g) world"
  trsm :: "Side \<Rightarrow> 's \<Rightarrow> 't view \<Rightarrow> 't Matrix \<Rightarrow> 'o \<Rightarrow> 't Matrix"
  X_storage :: "int \<times> int \<Rightarrow> 't option"
  V_storage :: "int \<times> int \<Rightarrow> 't option"
  isgn_storage :: "int \<times> int \<Rightarrow> 'g option"

text \<open>
  The calls and the branches on \<open>kase\<close>, in the order in which a process makes them. Each
  operation below appends itself to this log.
\<close>

datatype call = Call_norm1est | Call_Bcast_isave nat | Call_Bcast_kase nat | Call_trsm
  | Branch_on_kase

type_synonym ('t, 'g) run = "('t, 'g) world \<times> call list"

definition call_norm1est :: "('t, 'g, 's, 'o) collaborators \<Rightarrow> ('t, 'g) run \<Rightarrow> ('t, 'g) run" where
  "call_norm1est c r = (norm1est c (fst r), snd r @ [Call_norm1est])"

text \<open>
  \<open>MPI_Bcast(&isave[0], 4, MPI_INT64_T, root, comm)\<close>: the first four elements of the
  vector of every process become those of the root.
\<close>

definition MPI_Bcast_isave :: "nat \<Rightarrow> ('t, 'g) run \<Rightarrow> ('t, 'g) run" where
  "MPI_Bcast_isave root_rank r =
     ((fst r)\<lparr>proc := (\<lambda>p. (proc (fst r) p)
         \<lparr>isave := take 4 (isave (proc (fst r) root_rank)) @ drop 4 (isave (proc (fst r) p))\<rparr>)\<rparr>,
      snd r @ [Call_Bcast_isave root_rank])"

text \<open>\<open>MPI_Bcast(&kase, 1, MPI_INT, root, comm)\<close>.\<close>

definition MPI_Bcast_kase :: "nat \<Rightarrow> ('t, 'g) run \<Rightarrow> ('t, 'g) run" where
  "MPI_Bcast_kase root_rank r =
     ((fst r)\<lparr>proc := (\<lambda>p. (proc (fst r) p)\<lparr>kase := kase (proc (fst r) root_rank)\<rparr>)\<rparr>,
      snd r @ [Call_Bcast_kase root_rank])"

definition call_trsm ::
  "('t, 'g, 's, 'o) collaborators \<Rightarrow> Side \<Rightarrow> 's \<Rightarrow> 't view \<Rightarrow> 'o \<Rightarrow> ('t, 'g) run \<Rightarrow> ('t, 'g) run" where
  "call_trsm c side alpha T opts r =
     ((fst r)\<lparr>X := trsm c side alpha T (X (fst r)) opts\<rparr>, snd r @ [Call_trsm])"

text \<open>A test that every process makes on its own copy of the local variables.\<close>

definition every_proc :: "nat \<Rightarrow> (locals \<Rightarrow> bool) \<Rightarrow> ('t, 'g) world \<Rightarrow> bool" where
  "every_proc nprocs P w = list_all (\<lambda>p. P (proc w p)) [0..<nprocs]"

text \<open>
  The \<open>while (kase != 0)\<close> loop, for all processes at once. Each process branches on its own
  \<open>kase\<close>; processes that take different branches no longer make the same collective calls,
  which is the result \<open>Desynchronised\<close>. The estimator is not part of the sources and the loop
  runs as long as it asks for more, so the loop takes the number of rounds it may run; when
  they are used up the result is \<open>Fuel_spent\<close> with the state reached.
\<close>

datatype ('t, 'g) loop_result =
  Finished "('t, 'g) run" | Fuel_spent "('t, 'g) run" | Desynchronised "('t, 'g) run"

fun gecondest_while ::
  "nat \<Rightarrow> ('t, 'g, 's, 'o) collaborators \<Rightarrow> 'o \<Rightarrow> nat \<Rightarrow> nat \<Rightarrow> int \<Rightarrow> 's \<Rightarrow> 't view \<Rightarrow> 't view
     \<Rightarrow> ('t, 'g) run \<Rightarrow> ('t, 'g) loop_result" where
  "gecondest_while 0 c opts nprocs root_rank kase1 alpha L U r = Fuel_spent r"
| "gecondest_while (Suc fuel) c opts nprocs root_rank kase1 alpha L U r =
     (let r1 = (fst r, snd r @ [Branch_on_kase]) in
      if every_proc nprocs (\<lambda>l. kase l \<noteq> 0) (fst r1) then
        if every_proc nprocs (\<lambda>l. kase l = kase1) (fst r1) then
          gecondest_while fuel c opts nprocs root_rank kase1 alpha L U
            (MPI_Bcast_kase root_rank (MPI_Bcast_isave root_rank (call_norm1est c
              (call_trsm c Left alpha U opts (call_trsm c Left alpha L opts r1)))))
        else if every_proc nprocs (\<lambda>l. kase l \<noteq> kase1) (fst r1) then
          gecondest_while fuel c opts nprocs root_rank kase1 alpha L U
            (MPI_Bcast_kase root_rank (MPI_Bcast_isave root_rank (call_norm1est c
              (call_trsm c Left alpha (conj_transpose L) opts
                (call_trsm c Left alpha (conj_transpose U) opts r1)))))
        else Desynchronised r1
      else if every_proc nprocs (\<lambda>l. kase l = 0) (fst r1) then Finished r1
      else Desynchronised r1)"

text \<open>Lines 115 to 143: the cold-start call with \<open>kase = 0\<close>, its two broadcasts, the loop.\<close>

definition gecondest_iterate ::
  "nat \<Rightarrow> ('t, 'g, 's, 'o) collaborators \<Rightarrow> 'o \<Rightarrow> nat \<Rightarrow> nat \<Rightarrow> int \<Rightarrow> 's \<Rightarrow> 't view \<Rightarrow> 't view
     \<Rightarrow> ('t, 'g) world \<Rightarrow> ('t, 'g) loop_result" where
  "gecondest_iterate fuel c opts nprocs root_rank kase1 alpha L U w =
     gecondest_while fuel c opts nprocs root_rank kase1 alpha L U
       (MPI_Bcast_kase root_rank (MPI_Bcast_isave root_rank (call_norm1est c (w, []))))"

text \<open>
  \<open>slate_error\<close> throws; \<open>Out_of_fuel\<close> and \<open>Stalled\<close> are the two ways in which the call
  gives no value within the rounds allowed.
\<close>

datatype failure = slate_error string | Out_of_fuel | Stalled

definition new_Matrix :: "'t Matrix \<Rightarrow> (int \<times> int \<Rightarrow> 'u option) \<Rightarrow> 'u Matrix" where
  "new_Matrix A storage =
     \<lparr>m = m A, mt = mt A, nt = 1, tiles = storage, tileRank = tileRank A, mpiSize = mpiSize A\<rparr>"

definition initial_world :: "('t, 'g, 's, 'o) collaborators \<Rightarrow> 't Matrix \<Rightarrow> ('t, 'g) world" where
  "initial_world c A =
     \<lparr>X = new_Matrix A (X_storage c), V = new_Matrix A (V_storage c),
      isgn = new_Matrix A (isgn_storage c),
      proc = (\<lambda>p. \<lparr>Ainvnorm = Fin 0, kase = 0, isave = [0, 0, 0, 0]\<rparr>)\<rparr>"

text \<open>
  The value that process \<open>me\<close> returns. \<open>k\<close> is the template argument and \<open>fuel\<close> the number
  of rounds allowed to the loop. In \<open>(1.0 / Ainvnorm) / Anorm\<close> the literal is a \<open>double\<close>, so
  both divisions are divisions of \<open>double\<close> for every template argument, and the \<open>return\<close>
  converts their result to the real type.
\<close>

definition gecondest ::
  "scalar_kind \<Rightarrow> ('t, 'g, 's::one, 'o) collaborators \<Rightarrow> nat \<Rightarrow> nat \<Rightarrow> Norm \<Rightarrow> 't Matrix \<Rightarrow> real_t
     \<Rightarrow> 'o \<Rightarrow> failure + real_t" where
  "gecondest k c fuel me in_norm A Anorm opts =
     (case (if in_norm = Norm_One then Inr 1
            else if in_norm = Norm_Inf then Inr 2
            else Inl (slate_error ''invalid norm.'')) of
        Inl e \<Rightarrow> Inl e
      | Inr kase1 \<Rightarrow>
          if r_less Anorm (Fin 0) \<or> isnan Anorm then Inl (slate_error ''invalid Anorm'')
          else if m A \<le> 1 then Inr (Fin 1)
          else if r_eq Anorm (Fin 0) then Inr (Fin 0)
          else
            (let w = initial_world c A;
                 L = TriangularMatrix Lower Unit A;
                 U = TriangularMatrix Upper NonUnit A
             in case gecondest_iterate fuel c opts (mpiSize A) (tileRank (X w) (0, 0)) kase1 1 L U w of
                  Finished r \<Rightarrow>
                    if \<not> r_eq (Ainvnorm (proc (fst r) me)) (Fin 0)
                    then Inr (from_double k
                           (fdiv double (fdiv double (Fin 1) (Ainvnorm (proc (fst r) me))) Anorm))
                    else Inr (Fin 0)
                | Fuel_spent r \<Rightarrow> Inl Out_of_fuel
                | Desynchronised r \<Rightarrow> Inl Stalled))"

section \<open>internal::trmm\<close>

text \<open>
  The tile kernels \<open>trmm\<close> and \<open>gemm\<close> of \<open>slate_Tile_blas.hh\<close> are not part of the sources.
  They write their last operand (the \<open>B\<close> tile of \<open>trmm\<close>, the \<open>C\<close> tile of \<open>gemm\<close>) and read the
  others; here each returns the new contents of the tile it writes.
\<close>

record ('s, 't) Tile_blas =
  tile_trmm :: "Side \<Rightarrow> Diag \<Rightarrow> 's \<Rightarrow> 't \<Rightarrow> 't \<Rightarrow> 't"
  tile_gemm :: "'s \<Rightarrow> 't \<Rightarrow> 't \<Rightarrow> 's \<Rightarrow> 't \<Rightarrow> 't"

text \<open>
  \<open>assert\<close> aborts the process when its condition fails (a build without \<open>NDEBUG\<close>). A tile
  that the matrix does not hold cannot be handed to a kernel.
\<close>

datatype trmm_failure = Assertion_failed string | Tile_absent "int \<times> int"

definition tile_at :: "'t Matrix \<Rightarrow> int \<Rightarrow> int \<Rightarrow> trmm_failure + 't" where
  "tile_at M i j = (case tiles M (i, j) of None \<Rightarrow> Inl (Tile_absent (i, j)) | Some t \<Rightarrow> Inr t)"

text \<open>
  The two loop nests do no work themselves: each iteration creates one OpenMP task, with
  its loop variables captured by value. \<open>Diag_task n\<close> is the task of the first loop,
  \<open>Gemm_task k n\<close> the task of the second.
\<close>

datatype task = Diag_task int | Gemm_task int int

text \<open>The first loop: \<open>n\<close> from 0 while \<open>n < B.nt()\<close>.\<close>

function trmm_diag_tasks :: "'t Matrix \<Rightarrow> int \<Rightarrow> task list" where
  "trmm_diag_tasks B n = (if n < nt B then Diag_task n # trmm_diag_tasks B (n + 1) else [])"
  by pat_completeness auto
termination
  by (relation "measure (\<lambda>(B, n). nat (nt B - n))") auto

text \<open>The inner loop of the second loop nest, for one \<open>k\<close>.\<close>

function trmm_gemm_tasks :: "'t Matrix \<Rightarrow> int \<Rightarrow> int \<Rightarrow> task list" where
  "trmm_gemm_tasks B k n =
     (if n < nt B then Gemm_task k n # trmm_gemm_tasks B k (n + 1) else [])"
  by pat_completeness auto
termination
  by (relation "measure (\<lambda>(B, k, n). nat (nt B - n))") auto

text \<open>The outer loop: \<open>k\<close> from \<open>A.nt()-2\<close> down to 0.\<close>

function trmm_gemm_loop :: "'t Matrix \<Rightarrow> int \<Rightarrow> task list" where
  "trmm_gemm_loop B k =
     (if 0 \<le> k then trmm_gemm_tasks B k 0 @ trmm_gemm_loop B (k - 1) else [])"
  by pat_completeness auto
termination
  by (relation "measure (\<lambda>(B, k). nat (k + 1))") auto

text \<open>The body of a task, run on the matrices as they are when the task runs.\<close>

fun run_task ::
  "('s::one, 't) Tile_blas \<Rightarrow> Side \<Rightarrow> Diag \<Rightarrow> 's \<Rightarrow> 't Matrix \<Rightarrow> 't Matrix \<Rightarrow> task
     \<Rightarrow> trmm_failure + 't Matrix" where
  "run_task ker side diag alpha A B (Diag_task n) =
     (case tile_at A 0 (nt A - 1) of
        Inl e \<Rightarrow> Inl e
      | Inr a \<Rightarrow>
          (case tile_at B (mt B - 1) n of
             Inl e \<Rightarrow> Inl e
           | Inr b \<Rightarrow>
               Inr (B\<lparr>tiles := (tiles B)((mt B - 1, n) \<mapsto> tile_trmm ker side diag alpha a b)\<rparr>)))"
| "run_task ker side diag alpha A B (Gemm_task k n) =
     (case tile_at A 0 k of
        Inl e \<Rightarrow> Inl e
      | Inr a \<Rightarrow>
          (case tile_at B k n of
             Inl e \<Rightarrow> Inl e
           | Inr b \<Rightarrow>
               (case tile_at B (mt B - 1) n of
                  Inl e \<Rightarrow> Inl e
                | Inr c \<Rightarrow>
                    Inr (B\<lparr>tiles := (tiles B)((mt B - 1, n) \<mapsto> tile_gemm ker alpha a b 1 c)\<rparr>))))"

text \<open>
  Neither pragma has a \<open>depend\<close> clause, so the tasks of one call are not ordered among
  themselves: the OpenMP runtime runs them in an order of its own choice, and \<open>taskwait\<close>
  returns when all have run. \<open>schedule\<close> is that choice: as long as tasks wait, its next
  number, taken modulo the number of waiting tasks, names the one that runs next (the first
  waiting task once the list is used up). Every order of the tasks is the order of some
  schedule and every schedule runs each task once. Each task runs to its end before the
  next one starts: two tasks at the same time on one tile are not covered.
\<close>

function taskwait ::
  "('s::one, 't) Tile_blas \<Rightarrow> Side \<Rightarrow> Diag \<Rightarrow> 's \<Rightarrow> nat list \<Rightarrow> 't Matrix \<Rightarrow> 't Matrix
     \<Rightarrow> task list \<Rightarrow> trmm_failure + 't Matrix" where
  "taskwait ker side diag alpha schedule A B waiting =
     (if waiting = [] then Inr B
      else
        (let i = (case schedule of [] \<Rightarrow> 0 | c # cs \<Rightarrow> c mod length waiting) in
         case run_task ker side diag alpha A B (waiting ! i) of
           Inl e \<Rightarrow> Inl e
         | Inr B' \<Rightarrow>
             taskwait ker side diag alpha (tl schedule) A B'
               (take i waiting @ drop (Suc i) waiting)))"
  by pat_completeness auto
termination
proof (relation "measure (\<lambda>(ker, side, diag, alpha, schedule, A, B, waiting). length waiting)")
  show "wf (measure (\<lambda>(ker, side, diag, alpha, schedule, A, B, waiting). length waiting))"
    by simp
next
  fix ker :: "('s::one, 't) Tile_blas" and side diag alpha and schedule :: "nat list"
    and A B :: "'t Matrix" and waiting :: "task list" and i B'
  assume w: "waiting \<noteq> []"
    and i: "i = (case schedule of [] \<Rightarrow> 0 | c # cs \<Rightarrow> c mod length waiting)"
  have "i < length waiting" using w i by (cases schedule) simp_all
  then show "((ker, side, diag, alpha, tl schedule, A, B', take i waiting @ drop (Suc i) waiting),
              ker, side, diag, alpha, schedule, A, B, waiting)
             \<in> measure (\<lambda>(ker, side, diag, alpha, schedule, A, B, waiting). length waiting)"
    by simp
qed

declare trmm_diag_tasks.simps [simp del]
declare trmm_gemm_tasks.simps [simp del]
declare trmm_gemm_loop.simps [simp del]
declare taskwait.simps [simp del]

text \<open>
  The host OpenMP task implementation: the two assertions, the tasks of the two loop
  nests, \<open>taskwait\<close>. \<open>A\<close> and \<open>B\<close> are reference parameters; the result is what both hold
  when the call returns.
\<close>

definition trmm_HostTask ::
  "('s::one, 't) Tile_blas \<Rightarrow> nat list \<Rightarrow> Side \<Rightarrow> Diag \<Rightarrow> 's \<Rightarrow> 't Matrix \<Rightarrow> 't Matrix \<Rightarrow> int
     \<Rightarrow> trmm_failure + 't Matrix \<times> 't Matrix" where
  "trmm_HostTask ker schedule side diag alpha A B priority =
     (if mt A \<noteq> 1 then Inl (Assertion_failed ''A.mt() == 1'')
      else if nt A \<noteq> mt B then Inl (Assertion_failed ''A.nt() == B.mt()'')
      else
        (case taskwait ker side diag alpha schedule A B
                (trmm_diag_tasks B 0 @ trmm_gemm_loop B (nt A - 2)) of
           Inl e \<Rightarrow> Inl e
         | Inr B' \<Rightarrow> Inr (A, B')))"

text \<open>The dispatching template, instantiated for \<open>Target::HostTask\<close> only.\<close>

definition trmm ::
  "('s::one, 't) Tile_blas \<Rightarrow> nat list \<Rightarrow> Side \<Rightarrow> Diag \<Rightarrow> 's \<Rightarrow> 't Matrix \<Rightarrow> 't Matrix \<Rightarrow> int
     \<Rightarrow> trmm_failure + 't Matrix \<times> 't Matrix" where
  "trmm ker schedule side diag alpha A B priority =
     trmm_HostTask ker schedule side diag alpha A B priority"

section \<open>What the statements observe\<close>

text \<open>
  The estimate that process \<open>me\<close> holds when the loop has ended, and the log of a run.
\<close>

definition final_Ainvnorm :: "('t, 'g) loop_result \<Rightarrow> nat \<Rightarrow> real_t option" where
  "final_Ainvnorm res me =
     (case res of Finished r \<Rightarrow> Some (Ainvnorm (proc (fst r) me)) | Fuel_spent r \<Rightarrow> None
      | Desynchronised r \<Rightarrow> None)"

text \<open>The value of lines 146 to 151 for a final estimate \<open>a\<close>.\<close>

definition rcond_value :: "scalar_kind \<Rightarrow> real_t \<Rightarrow> real_t \<Rightarrow> real_t" where
  "rcond_value k a Anorm =
     (if \<not> r_eq a (Fin 0) then from_double k (fdiv double (fdiv double (Fin 1) a) Anorm)
      else Fin 0)"

definition calls_of :: "('t, 'g) loop_result \<Rightarrow> call list" where
  "calls_of res =
     (case res of Finished r \<Rightarrow> snd r | Fuel_spent r \<Rightarrow> snd r | Desynchronised r \<Rightarrow> snd r)"

text \<open>
  All processes of the communicator hold the request code and the state vector of the root.
\<close>

definition agree :: "nat \<Rightarrow> nat \<Rightarrow> ('t, 'g) world \<Rightarrow> bool" where
  "agree nprocs root_rank w =
     every_proc nprocs
       (\<lambda>l. kase l = kase (proc w root_rank) \<and> isave l = isave (proc w root_rank)) w"

text \<open>
  The order of the calls, read off a log: an estimator call is followed at once by the
  broadcast of \<open>isave\<close> from the root and then by the broadcast of \<open>kase\<close> from the root, and a
  branch on \<open>kase\<close> comes only right after that second broadcast. \<open>phase_after\<close> is \<open>None\<close> for
  a log that breaks this order.
\<close>

datatype phase = Idle | Estimated | State_sent | Synced

fun step_phase :: "nat \<Rightarrow> phase \<Rightarrow> call \<Rightarrow> phase option" where
  "step_phase r Idle Call_norm1est = Some Estimated"
| "step_phase r Idle Call_trsm = Some Idle"
| "step_phase r Estimated (Call_Bcast_isave a) = (if a = r then Some State_sent else None)"
| "step_phase r State_sent (Call_Bcast_kase a) = (if a = r then Some Synced else None)"
| "step_phase r Synced Branch_on_kase = Some Idle"
| "step_phase r _ _ = None"

fun phase_after :: "nat \<Rightarrow> phase \<Rightarrow> call list \<Rightarrow> phase option" where
  "phase_after r ph [] = Some ph"
| "phase_after r ph (c # cs) =
     (case step_phase r ph c of None \<Rightarrow> None | Some ph' \<Rightarrow> phase_after r ph' cs)"

text \<open>
  A tile as a matrix: \<open>mb\<close> rows, \<open>nb\<close> columns, the triangle that a triangular kernel reads
  and the entries.
\<close>

record 'a Tile =
  mb :: nat
  nb :: nat
  uplo :: Uplo
  entry :: "nat \<Rightarrow> nat \<Rightarrow> 'a"

text \<open>Entry \<open>(i, j)\<close> of the matrix product of two tiles.\<close>

definition product_entry :: "'a::semiring_1 Tile \<Rightarrow> 'a Tile \<Rightarrow> nat \<Rightarrow> nat \<Rightarrow> 'a" where
  "product_entry a b i j = (\<Sum>l<nb a. entry a i l * entry b l j)"

text \<open>
  The value that claim C1 names for entry \<open>(p, q)\<close> of tile \<open>B(K-1, n)\<close>, from the tiles of
  \<open>A\<close> and \<open>B\<close> on entry: \<open>alpha A(0,K-1) B(K-1,n) + alpha (sum of A(0,k) B(k,n), k = 0 .. K-2)\<close>.
\<close>

definition claimed_entry ::
  "'a::semiring_1 \<Rightarrow> 'a Tile Matrix \<Rightarrow> 'a Tile Matrix \<Rightarrow> int \<Rightarrow> nat \<Rightarrow> nat \<Rightarrow> 'a" where
  "claimed_entry alpha A B n p q =
     alpha * product_entry (the (tiles A (0, mt B - 1))) (the (tiles B (mt B - 1, n))) p q
     + alpha * (\<Sum>k = 0..mt B - 2.
          product_entry (the (tiles A (0, k))) (the (tiles B (k, n))) p q)"

text \<open>The four entries of a 2 by 2 tile, row by row.\<close>

definition tile_values :: "'a Tile \<Rightarrow> 'a list" where
  "tile_values t = [entry t 0 0, entry t 0 1, entry t 1 0, entry t 1 1]"

text \<open>The tile of the last tile row of \<open>B\<close> in column \<open>n\<close> after a call, if the call returns.\<close>

definition last_row_tile ::
  "trmm_failure + 't Matrix \<times> 't Matrix \<Rightarrow> int \<Rightarrow> 't option" where
  "last_row_tile res n =
     (case res of Inl e \<Rightarrow> None | Inr AB \<Rightarrow> tiles (snd AB) (mt (snd AB) - 1, n))"

section \<open>Concrete inputs\<close>

text \<open>
  A 4 by 4 matrix in 2 by 2 tiles on two processes, with tile \<open>(0, 0)\<close> on process 1, and
  a 1 by 1 matrix.
\<close>

definition demo_A :: "unit Matrix" where
  "demo_A = \<lparr>m = 4, mt = 2, nt = 2, tiles = (\<lambda>ij. Some ()),
     tileRank = (\<lambda>ij. nat ((fst ij + snd ij + 1) mod 2)), mpiSize = 2\<rparr>"

definition single_A :: "unit Matrix" where
  "single_A = \<lparr>m = 1, mt = 1, nt = 1, tiles = (\<lambda>ij. Some ()),
     tileRank = (\<lambda>ij. 0), mpiSize = 1\<rparr>"

text \<open>
  An estimator that asks for the operator, then for its conjugate transpose, and then
  stops with \<open>Ainvnorm = 1/2\<close>. Only process 1 computes the request code and the state
  vector; process 0 is left with other values.
\<close>

definition demo_norm1est :: "(unit, unit) world \<Rightarrow> (unit, unit) world" where
  "demo_norm1est w = w\<lparr>proc := (\<lambda>p.
       if isave (proc w p) = [0, 0, 0, 0]
       then \<lparr>Ainvnorm = Fin 0, kase = (if p = 1 then 1 else 7),
             isave = (if p = 1 then [1, 0, 0, 0] else [9, 9, 9, 9])\<rparr>
       else if isave (proc w p) = [1, 0, 0, 0]
       then \<lparr>Ainvnorm = Fin (1 / 4), kase = (if p = 1 then 2 else 5),
             isave = (if p = 1 then [2, 0, 0, 1] else [8, 8, 8, 8])\<rparr>
       else \<lparr>Ainvnorm = Fin (1 / 2), kase = (if p = 1 then 0 else 3),
             isave = (if p = 1 then [3, 0, 0, 1] else [7, 7, 7, 7])\<rparr>)\<rparr>"

definition demo_collaborators :: "(unit, unit, real, unit) collaborators" where
  "demo_collaborators = \<lparr>norm1est = demo_norm1est, trsm = (\<lambda>side alpha T x opts. x),
     X_storage = (\<lambda>ij. Some ()), V_storage = (\<lambda>ij. Some ()), isgn_storage = (\<lambda>ij. Some ())\<rparr>"

text \<open>An estimator that stops at its first call with the estimate \<open>a\<close>.\<close>

definition stopping_norm1est :: "real_t \<Rightarrow> (unit, unit) world \<Rightarrow> (unit, unit) world" where
  "stopping_norm1est a w =
     w\<lparr>proc := (\<lambda>p. \<lparr>Ainvnorm = a, kase = 0, isave = [0, 0, 0, 0]\<rparr>)\<rparr>"

definition stopping_collaborators :: "real_t \<Rightarrow> (unit, unit, real, unit) collaborators" where
  "stopping_collaborators a = demo_collaborators\<lparr>norm1est := stopping_norm1est a\<rparr>"

text \<open>
  Modelled from the spec: the two tile kernels of \<open>slate_Tile_blas.hh\<close>, which are not part
  of the sources, as the spec's section 4.2 names them for a unit- or non-unit-diagonal
  triangular \<open>A\<close>: the triangular multiply \<open>B := alpha A B\<close> (\<open>B := alpha B A\<close> for
  \<open>Side::Right\<close>), which reads the triangle of \<open>A\<close> that its \<open>uplo\<close> names and takes the
  diagonal as ones for \<open>Diag::Unit\<close>, and the accumulation \<open>C := alpha A B + beta C\<close>. The
  arithmetic is exact: these kernels stand for the floating-point ones only on entries such
  as the small integers below, where no operation rounds.
\<close>

definition tri_entry :: "Diag \<Rightarrow> 'a::semiring_1 Tile \<Rightarrow> nat \<Rightarrow> nat \<Rightarrow> 'a" where
  "tri_entry diag a i j =
     (if i = j then (if diag = Unit then 1 else entry a i j)
      else if uplo a = Lower \<and> i < j then 0
      else if uplo a = Upper \<and> j < i then 0
      else entry a i j)"

definition blas_trmm :: "Side \<Rightarrow> Diag \<Rightarrow> 'a::semiring_1 \<Rightarrow> 'a Tile \<Rightarrow> 'a Tile \<Rightarrow> 'a Tile" where
  "blas_trmm side diag alpha a b =
     (case side of
        Left \<Rightarrow> b\<lparr>entry := (\<lambda>i j. alpha * (\<Sum>l<mb b. tri_entry diag a i l * entry b l j))\<rparr>
      | Right \<Rightarrow> b\<lparr>entry := (\<lambda>i j. alpha * (\<Sum>l<nb b. entry b i l * tri_entry diag a l j))\<rparr>)"

definition blas_gemm :: "'a::semiring_1 \<Rightarrow> 'a Tile \<Rightarrow> 'a Tile \<Rightarrow> 'a \<Rightarrow> 'a Tile \<Rightarrow> 'a Tile" where
  "blas_gemm alpha a b beta c =
     c\<lparr>entry := (\<lambda>i j. alpha * product_entry a b i j + beta * entry c i j)\<rparr>"

definition blas_kernels :: "('a::semiring_1, 'a Tile) Tile_blas" where
  "blas_kernels = \<lparr>tile_trmm = blas_trmm, tile_gemm = blas_gemm\<rparr>"

text \<open>
  A lower triangular \<open>A\<close> of 1 by 3 tiles and a matrix \<open>B\<close> of 3 by 2 tiles, all tiles 2 by
  2 with small integer entries.
\<close>

definition tile2 :: "Uplo \<Rightarrow> 'a \<Rightarrow> 'a \<Rightarrow> 'a \<Rightarrow> 'a \<Rightarrow> 'a Tile" where
  "tile2 u a b c d =
     \<lparr>mb = 2, nb = 2, uplo = u,
      entry = (\<lambda>i j. if i = 0 then (if j = 0 then a else b) else (if j = 0 then c else d))\<rparr>"

definition trmm_A :: "real Tile Matrix" where
  "trmm_A = \<lparr>m = 2, mt = 1, nt = 3,
     tiles = [(0, 0) \<mapsto> tile2 General 1 2 3 4, (0, 1) \<mapsto> tile2 General 0 1 1 0,
              (0, 2) \<mapsto> tile2 Lower 2 0 1 3],
     tileRank = (\<lambda>ij. 0), mpiSize = 1\<rparr>"

definition trmm_B :: "real Tile Matrix" where
  "trmm_B = \<lparr>m = 6, mt = 3, nt = 2,
     tiles = [(0, 0) \<mapsto> tile2 General 1 0 0 1, (0, 1) \<mapsto> tile2 General 1 1 1 1,
              (1, 0) \<mapsto> tile2 General 2 3 4 5, (1, 1) \<mapsto> tile2 General 0 1 0 1,
              (2, 0) \<mapsto> tile2 General 5 6 7 8, (2, 1) \<mapsto> tile2 General 1 2 3 4],
     tileRank = (\<lambda>ij. 0), mpiSize = 1\<rparr>"

text \<open>
  Two schedules for the six tasks of this input: each task as soon as it is created, and
  the task created last first.
\<close>

definition creation_order :: "nat list" where
  "creation_order = [0, 0, 0, 0, 0, 0]"

definition last_created_first :: "nat list" where
  "last_created_first = [5, 4, 3, 2, 1, 0]"

definition trmm_B_after :: "real Tile Matrix" where
  "trmm_B_after =
     (case trmm blas_kernels last_created_first Left NonUnit 2 trmm_A trmm_B 0 of
        Inl e \<Rightarrow> trmm_B | Inr AB \<Rightarrow> snd AB)"

section \<open>gecondest: the checks and the quick returns\<close>

text \<open>
  C7. A norm selector that is neither the one-norm nor the infinity-norm makes
  \<open>gecondest\<close> fail with \<open>slate_error("invalid norm.")\<close>, for every matrix and every
  \<open>Anorm\<close>.
\<close>

theorem gecondest_invalid_norm:
  "in_norm \<noteq> Norm_One \<Longrightarrow> in_norm \<noteq> Norm_Inf \<Longrightarrow>
     gecondest k c fuel me in_norm A Anorm opts = Inl (slate_error ''invalid norm.'')"
  by (simp add: gecondest_def)

theorem gecondest_invalid_norm_witness:
  "Norm_Fro \<noteq> Norm_One \<and> Norm_Fro \<noteq> Norm_Inf \<and>
     gecondest double demo_collaborators 5 0 Norm_Fro demo_A (Fin 8) ()
       = Inl (slate_error ''invalid norm.'')"
  using gecondest_invalid_norm [of Norm_Fro double demo_collaborators 5 0 demo_A "Fin 8" "()"]
  by simp

text \<open>
  C6. When \<open>Anorm\<close> is negative or NaN, \<open>gecondest\<close> fails with a \<open>slate_error\<close> and returns
  no number, whatever the norm selector is: an invalid selector fails first, with its own
  message, and a valid one reaches the check of \<open>Anorm\<close>.
\<close>

theorem gecondest_invalid_Anorm:
  "r_less Anorm (Fin 0) \<or> isnan Anorm \<Longrightarrow>
     (\<exists>msg. gecondest k c fuel me in_norm A Anorm opts = Inl (slate_error msg)) \<and>
     (in_norm = Norm_One \<or> in_norm = Norm_Inf \<longrightarrow>
        gecondest k c fuel me in_norm A Anorm opts = Inl (slate_error ''invalid Anorm''))"
  by (auto simp: gecondest_def)

theorem gecondest_invalid_Anorm_witness:
  "(r_less NaN (Fin 0) \<or> isnan NaN) \<and>
     gecondest double demo_collaborators 5 0 Norm_One demo_A NaN ()
       = Inl (slate_error ''invalid Anorm'')"
  using gecondest_invalid_Anorm [of NaN double demo_collaborators 5 0 Norm_One demo_A "()"]
  by simp

text \<open>
  C5. With a valid norm selector, an \<open>Anorm\<close> that is neither negative nor NaN and a matrix
  of at most one row, \<open>gecondest\<close> returns exactly 1. The result is the same for every
  estimator and every number of rounds allowed to the loop, none included: the loop is not
  entered.
\<close>

theorem gecondest_quick_return_one:
  "in_norm = Norm_One \<or> in_norm = Norm_Inf \<Longrightarrow> m A \<le> 1 \<Longrightarrow>
     \<not> r_less Anorm (Fin 0) \<Longrightarrow> \<not> isnan Anorm \<Longrightarrow>
     gecondest k c fuel me in_norm A Anorm opts = Inr (Fin 1)"
  by (auto simp: gecondest_def)

theorem gecondest_quick_return_one_witness:
  "(Norm_Inf = Norm_One \<or> Norm_Inf = Norm_Inf) \<and> m single_A \<le> 1 \<and>
     \<not> r_less (Fin 8) (Fin 0) \<and> \<not> isnan (Fin 8) \<and>
     gecondest float demo_collaborators 0 0 Norm_Inf single_A (Fin 8) () = Inr (Fin 1)"
  using gecondest_quick_return_one [of Norm_Inf single_A "Fin 8" float demo_collaborators 0 0 "()"]
  by (simp add: single_A_def)

text \<open>
  C4, as the code has it. The test \<open>m <= 1\<close> comes first, so a zero \<open>Anorm\<close> gives 0 only
  for a matrix of more than one row: with a valid norm selector, \<open>1 < m\<close> and \<open>Anorm == 0\<close>,
  \<open>gecondest\<close> returns exactly 0, for every estimator and every number of rounds allowed to
  the loop. For a matrix of one row and \<open>Anorm == 0\<close> it returns 1.
\<close>

theorem gecondest_zero_Anorm:
  "in_norm = Norm_One \<or> in_norm = Norm_Inf \<Longrightarrow> 1 < m A \<Longrightarrow> r_eq Anorm (Fin 0) \<Longrightarrow>
     gecondest k c fuel me in_norm A Anorm opts = Inr (Fin 0)"
  by (cases Anorm) (auto simp: gecondest_def)

theorem gecondest_zero_Anorm_witness:
  "(Norm_One = Norm_One \<or> Norm_One = Norm_Inf) \<and> 1 < m demo_A \<and> r_eq (Fin 0) (Fin 0) \<and>
     gecondest double demo_collaborators 0 1 Norm_One demo_A (Fin 0) () = Inr (Fin 0)"
  using gecondest_zero_Anorm [of Norm_One demo_A "Fin 0" double demo_collaborators 0 1 "()"]
  by (simp add: demo_A_def)

theorem gecondest_zero_Anorm_counterexample:
  "r_eq (Fin 0) (Fin 0) \<and>
   gecondest double demo_collaborators 5 0 Norm_One single_A (Fin 0) () = Inr (Fin 1) \<and>
   gecondest double demo_collaborators 5 0 Norm_One single_A (Fin 0) () \<noteq> Inr (Fin 0)"
  by (simp add: gecondest_def single_A_def)

section \<open>gecondest: the value returned after the loop\<close>

lemma round_half_even_nonneg: "0 \<le> q \<Longrightarrow> 0 \<le> round_half_even q"
  by (simp add: round_half_even_def Let_def)

lemma round_half_even_of_int: "round_half_even (of_int n) = n"
  by (simp add: round_half_even_def Let_def)

lemma quantum_pos: "0 < quantum k x"
  by (simp add: quantum_def)

lemma fround_nonneg: "0 \<le> x \<Longrightarrow> r_le (Fin 0) (fround k x)"
proof -
  assume x: "0 \<le> x"
  have "0 \<le> x / quantum k x" using x quantum_pos [of k x] by simp
  then have "0 \<le> real_of_int (round_half_even (x / quantum k x)) * quantum k x"
    using round_half_even_nonneg quantum_pos [of k x] by (simp add: less_imp_le)
  then show ?thesis using x
    by (auto simp: fround_def r_le_def)
qed

lemma precision_pos: "0 < precision k"
  by (cases k) simp_all

lemma overflow_threshold_gt: "2 powi emax k < overflow_threshold k"
proof -
  have "(2::real) powi (- int (precision k)) < 1"
    using precision_pos [of k] by (simp add: power_int_minus field_simps one_less_power)
  then have "(1::real) < 2 - 2 powi (- int (precision k))" by simp
  then have "1 * (2::real) powi emax k < (2 - 2 powi (- int (precision k))) * 2 powi emax k"
    by (intro mult_strict_right_mono) simp_all
  then show ?thesis by (simp add: overflow_threshold_def)
qed

lemma floor_log2_powi: "\<lfloor>log 2 (2 powi e)\<rfloor> = e"
proof -
  have "log 2 (2 powi e) = of_int e"
    by (simp add: powr_real_of_int' [symmetric])
  then show ?thesis by simp
qed

lemma fround_dyadic:
  assumes "emin k - (int (precision k) - 1) \<le> e" "e \<le> emax k"
  shows "fround k (2 powi e) = Fin (2 powi e)"
proof -
  let ?p = "int (precision k)"
  let ?E = "max e (emin k)"
  have "(2::real) powi e \<le> 2 powi emax k"
    using assms(2) by (intro power_int_increasing) simp_all
  then have small: "\<not> overflow_threshold k \<le> \<bar>(2::real) powi e\<bar>"
    using overflow_threshold_gt [of k] by simp
  have q: "quantum k (2 powi e) = 2 powi (?E - (?p - 1))"
    by (simp add: quantum_def floor_log2_powi)
  have nn: "0 \<le> e - ?E + (?p - 1)"
    using assms(1) precision_pos [of k] by (simp add: max_def)
  have "(2::real) powi e / 2 powi (?E - (?p - 1)) = 2 powi (e - ?E + (?p - 1))"
    by (simp add: power_int_diff power_int_add field_simps)
  also have "\<dots> = of_int (2 ^ nat (e - ?E + (?p - 1)))"
    using nn by (simp add: power_int_def)
  finally have d: "(2::real) powi e / 2 powi (?E - (?p - 1))
      = of_int (2 ^ nat (e - ?E + (?p - 1)))" .
  have "real_of_int (2 ^ nat (e - ?E + (?p - 1))) * 2 powi (?E - (?p - 1)) = 2 powi e"
    using d by (simp add: field_simps)
  then show ?thesis
    using small by (simp add: fround_def q d round_half_even_of_int del: of_int_power)
qed

lemma r_le_zero_iff: "r_le (Fin 0) b \<longleftrightarrow> b = PInf \<or> (\<exists>y. b = Fin y \<and> 0 \<le> y)"
  by (cases b) (auto simp: r_le_def)

lemma r_less_zero_iff: "r_less (Fin 0) b \<longleftrightarrow> b = PInf \<or> (\<exists>y. b = Fin y \<and> 0 < y)"
  by (cases b) auto

lemma fdiv_nonneg:
  assumes "r_le (Fin 0) b" "r_less (Fin 0) d"
  shows "r_le (Fin 0) (fdiv k b d) \<or> (b = PInf \<and> d = PInf \<and> fdiv k b d = NaN)"
proof -
  from assms(1) consider "b = PInf" | y where "b = Fin y" "0 \<le> y"
    by (auto simp: r_le_zero_iff)
  then show ?thesis
  proof cases
    case 1
    then show ?thesis using assms(2) by (auto simp: r_less_zero_iff r_le_def)
  next
    case 2
    from assms(2) consider "d = PInf" | z where "d = Fin z" "0 < z"
      by (auto simp: r_less_zero_iff)
    then show ?thesis
    proof cases
      case 1
      then show ?thesis using 2 by (simp add: r_le_def)
    next
      case 2
      have "0 \<le> y / z" using \<open>0 \<le> y\<close> 2 by simp
      then show ?thesis using \<open>b = Fin y\<close> 2 fround_nonneg [of "y / z" k] by simp
    qed
  qed
qed

lemma fdiv_one_nonneg:
  assumes "r_le (Fin 0) a" "\<not> r_eq a (Fin 0)"
  shows "r_le (Fin 0) (fdiv k (Fin 1) a)"
proof -
  from assms have "r_less (Fin 0) a" by (cases a) (auto simp: r_le_def)
  then show ?thesis using fdiv_nonneg [of "Fin 1" a k] by (auto simp: r_le_def)
qed

lemma is_real_t_lower_bound:
  assumes "fround k x = Fin x" "0 < x"
  shows "2 powi (emin k - (int (precision k) - 1)) \<le> x"
proof -
  let ?q = "quantum k x"
  let ?n = "round_half_even (x / ?q)"
  from assms have x: "x = of_int ?n * ?q"
    by (auto simp: fround_def split: if_splits)
  have qpos: "0 < ?q" by (rule quantum_pos)
  have "0 < of_int ?n * ?q" using x assms(2) by simp
  then have "0 < ?n" using qpos by (simp add: zero_less_mult_iff)
  then have "1 \<le> real_of_int ?n" by simp
  then have "1 * ?q \<le> of_int ?n * ?q" using qpos by (intro mult_right_mono) simp_all
  then have "?q \<le> x" using x by simp
  moreover have "2 powi (emin k - (int (precision k) - 1)) \<le> ?q"
    unfolding quantum_def by (intro power_int_increasing) simp_all
  ultimately show ?thesis by simp
qed

lemma from_double_nonneg:
  assumes "r_le (Fin 0) w"
  shows "r_le (Fin 0) (from_double k w)"
proof (cases w)
  case (Fin x)
  then have "0 \<le> x" using assms by (simp add: r_le_zero_iff)
  then have "r_le (Fin 0) (fround k x)" by (rule fround_nonneg)
  then show ?thesis using Fin assms by (cases k) simp_all
next
  case NaN
  then show ?thesis using assms by (cases k) simp_all
next
  case PInf
  then show ?thesis using assms by (cases k) simp_all
next
  case NInf
  then show ?thesis using assms by (cases k) simp_all
qed

lemma fround_finite:
  "\<not> overflow_threshold k \<le> \<bar>x\<bar> \<Longrightarrow> \<exists>z. fround k x = Fin z"
  by (simp add: fround_def)

lemma float_reciprocal_finite:
  assumes "precision k = 24" "is_real_t k (Fin x)" "0 < x"
  shows "\<exists>z. fdiv double (Fin 1) (Fin x) = Fin z \<and> 0 \<le> z"
proof -
  have k: "emin k = - 126"
    using assms(1) by (cases k) (simp_all add: emin_def)
  have "2 powi (- 149) \<le> x"
    using is_real_t_lower_bound [of k x] assms k by simp
  then have "1 / x \<le> 1 / 2 powi (- 149)"
    by (intro divide_left_mono) (use assms(3) in simp_all)
  moreover have "1 / 2 powi (- 149) < overflow_threshold double"
    by (simp add: overflow_threshold_def)
  ultimately have "\<not> overflow_threshold double \<le> \<bar>1 / x\<bar>"
    using assms(3) by simp
  then obtain z where z: "fround double (1 / x) = Fin z"
    using fround_finite by blast
  have "r_le (Fin 0) (fround double (1 / x))"
    using assms(3) by (intro fround_nonneg) simp
  then have "0 \<le> z" using z by (simp add: r_le_zero_iff)
  then show ?thesis using z assms(3) by simp
qed

lemma gecondest_while_more_fuel:
  "gecondest_while fuel c opts n rr kase1 alpha L U r = Finished r' \<Longrightarrow>
   gecondest_while (fuel + extra) c opts n rr kase1 alpha L U r = Finished r'"
proof (induction fuel arbitrary: r)
  case 0
  then show ?case by simp
next
  case (Suc fuel)
  then show ?case by (auto simp: Let_def split: if_splits)
qed

lemma final_Ainvnorm_more_fuel:
  assumes "final_Ainvnorm (gecondest_iterate fuel c opts n rr kase1 alpha L U w) me = Some a"
  shows "final_Ainvnorm (gecondest_iterate (fuel + extra) c opts n rr kase1 alpha L U w) me
         = Some a"
proof -
  from assms obtain r where
    fin: "gecondest_iterate fuel c opts n rr kase1 alpha L U w = Finished r"
    by (auto simp: final_Ainvnorm_def split: loop_result.splits)
  then have "gecondest_iterate (fuel + extra) c opts n rr kase1 alpha L U w = Finished r"
    unfolding gecondest_iterate_def by (rule gecondest_while_more_fuel)
  with fin assms show ?thesis by simp
qed

text \<open>
  C3, as the code has it. With a valid norm selector, \<open>1 < m\<close> and \<open>Anorm > 0\<close>, when the loop
  ends within some number of rounds and leaves the estimate \<open>a\<close> on process \<open>me\<close>, that
  process returns, for this and every larger number of rounds allowed, \<open>(1.0 / a) / Anorm\<close>
  (computed in \<open>double\<close> and converted to the real type) if \<open>a != 0\<close> and 0 if \<open>a == 0\<close>. If
  moreover \<open>a >= 0\<close>, the value returned is non-negative, with one exception, which only the
  two double instantiations have: it is NaN when \<open>Anorm\<close> is \<open>+Inf\<close> and \<open>1.0 / a\<close> overflows
  to \<open>+Inf\<close>.
\<close>

theorem gecondest_rcond:
  assumes "in_norm = Norm_One \<or> in_norm = Norm_Inf"
    and "1 < m A"
    and "r_less (Fin 0) Anorm"
    and "final_Ainvnorm
           (gecondest_iterate fuel c opts (mpiSize A) (tileRank A (0, 0))
              (if in_norm = Norm_One then 1 else 2) 1
              (TriangularMatrix Lower Unit A) (TriangularMatrix Upper NonUnit A)
              (initial_world c A)) me = Some a"
    and "is_real_t k a"
  shows "gecondest k c (fuel + extra) me in_norm A Anorm opts = Inr (rcond_value k a Anorm)
       \<and> (r_le (Fin 0) a \<longrightarrow>
            r_le (Fin 0) (rcond_value k a Anorm)
            \<or> ((k = double \<or> k = complex_double) \<and> Anorm = PInf
                 \<and> fdiv double (Fin 1) a = PInf \<and> rcond_value k a Anorm = NaN))"
proof -
  from assms(3) have pre: "\<not> r_less Anorm (Fin 0)" "\<not> isnan Anorm" "\<not> r_eq Anorm (Fin 0)"
    by (cases Anorm; simp)+
  have val: "gecondest k c (fuel + extra) me in_norm A Anorm opts = Inr (rcond_value k a Anorm)"
    using assms(1,2) pre final_Ainvnorm_more_fuel [OF assms(4), of extra]
    by (auto simp: gecondest_def final_Ainvnorm_def initial_world_def new_Matrix_def Let_def
        rcond_value_def split: loop_result.splits)
  have "r_le (Fin 0) (rcond_value k a Anorm)
        \<or> ((k = double \<or> k = complex_double) \<and> Anorm = PInf
             \<and> fdiv double (Fin 1) a = PInf \<and> rcond_value k a Anorm = NaN)"
    if a: "r_le (Fin 0) a"
  proof (cases "r_eq a (Fin 0)")
    case True
    then show ?thesis by (simp add: r_le_def rcond_value_def)
  next
    case False
    let ?b = "fdiv double (Fin 1) a"
    let ?w = "fdiv double ?b Anorm"
    have v: "rcond_value k a Anorm = from_double k ?w"
      using False by (simp add: rcond_value_def)
    have b: "r_le (Fin 0) ?b" by (rule fdiv_one_nonneg [OF a False])
    consider "r_le (Fin 0) ?w" | "?b = PInf" "Anorm = PInf" "?w = NaN"
      using fdiv_nonneg [OF b assms(3), of double] by auto
    then show ?thesis
    proof cases
      case 1
      then show ?thesis using v from_double_nonneg [of ?w k] by simp
    next
      case 2
      show ?thesis
      proof (cases "k = double \<or> k = complex_double")
        case True
        then show ?thesis using 2 v by auto
      next
        case False
        then have p: "precision k = 24" by (cases k) simp_all
        from a \<open>\<not> r_eq a (Fin 0)\<close> consider "a = PInf" | x where "a = Fin x" "0 < x"
          by (cases a) (auto simp: r_le_def)
        then have "?b \<noteq> PInf"
        proof cases
          case 1
          then show ?thesis by simp
        next
          case 2
          then show ?thesis
            using float_reciprocal_finite [OF p, of x] assms(5) by auto
        qed
        with 2 show ?thesis by simp
      qed
    qed
  qed
  with val show ?thesis by auto
qed

lemmas run_defs = gecondest_iterate_def initial_world_def new_Matrix_def
   MPI_Bcast_kase_def MPI_Bcast_isave_def call_norm1est_def call_trsm_def every_proc_def

lemma stopping_final_Ainvnorm:
  "final_Ainvnorm
     (gecondest_iterate 1 (stopping_collaborators a) () (mpiSize demo_A) (tileRank demo_A (0, 0))
        (if Norm_One = Norm_One then 1 else 2) (1::real)
        (TriangularMatrix Lower Unit demo_A) (TriangularMatrix Upper NonUnit demo_A)
        (initial_world (stopping_collaborators a) demo_A)) 0 = Some a"
  by (simp add: final_Ainvnorm_def run_defs stopping_collaborators_def demo_collaborators_def
      stopping_norm1est_def demo_A_def upt_rec eval_nat_numeral)

lemma float_rcond_value:
  "rcond_value float (Fin (2 powi (- 149))) (Fin (2 powi 100)) = Fin (2 powi 49)"
proof -
  define a1 a2 a3 a4 :: real
    where "a1 = 2 powi (- 149)" and "a2 = 2 powi 100" and "a3 = 2 powi 149" and "a4 = 2 powi 49"
  have nz: "a1 \<noteq> 0" "a2 \<noteq> 0" by (simp_all add: a1_def a2_def)
  have q: "1 / a1 = a3" "a3 / a2 = a4"
    by (simp_all add: a1_def a2_def a3_def a4_def power_int_minus)
  have r: "fround double a3 = Fin a3" "fround double a4 = Fin a4" "fround float a4 = Fin a4"
    unfolding a3_def a4_def by (rule fround_dyadic; simp add: emin_def)+
  have "rcond_value float (Fin a1) (Fin a2) = Fin a4"
    by (simp add: rcond_value_def nz q r)
  then show ?thesis unfolding a1_def a2_def a4_def .
qed

theorem gecondest_rcond_witness:
  "(Norm_One = Norm_One \<or> Norm_One = Norm_Inf) \<and> 1 < m demo_A \<and>
   r_less (Fin 0) (Fin (2 powi 100)) \<and>
   final_Ainvnorm
     (gecondest_iterate 1 (stopping_collaborators (Fin (2 powi (- 149)))) () (mpiSize demo_A)
        (tileRank demo_A (0, 0)) (if Norm_One = Norm_One then 1 else 2) (1::real)
        (TriangularMatrix Lower Unit demo_A) (TriangularMatrix Upper NonUnit demo_A)
        (initial_world (stopping_collaborators (Fin (2 powi (- 149)))) demo_A)) 0
     = Some (Fin (2 powi (- 149))) \<and>
   is_real_t float (Fin (2 powi (- 149))) \<and>
   r_le (Fin 0) (Fin (2 powi (- 149))) \<and>
   gecondest float (stopping_collaborators (Fin (2 powi (- 149)))) (1 + 2) 0 Norm_One demo_A
     (Fin (2 powi 100)) () = Inr (Fin (2 powi 49)) \<and>
   r_le (Fin 0) (Fin (2 powi 49))"
proof -
  have h2: "1 < m demo_A" by (simp add: demo_A_def)
  have h3: "r_less (Fin 0) (Fin (2 powi 100))" by simp
  have h5: "is_real_t float (Fin (2 powi (- 149)))"
    using fround_dyadic [of float "- 149"] by (simp add: emin_def)
  have nn: "r_le (Fin 0) (Fin (2 powi (- 149)))" "r_le (Fin 0) (Fin (2 powi 49))"
    by (simp_all add: r_le_def)
  have "gecondest float (stopping_collaborators (Fin (2 powi (- 149)))) (1 + 2) 0 Norm_One demo_A
     (Fin (2 powi 100)) () = Inr (rcond_value float (Fin (2 powi (- 149))) (Fin (2 powi 100)))"
    by (rule gecondest_rcond [OF disjI1 [OF refl] h2 h3 stopping_final_Ainvnorm h5,
          where extra = 2, THEN conjunct1])
  then have "gecondest float (stopping_collaborators (Fin (2 powi (- 149)))) (1 + 2) 0 Norm_One
      demo_A (Fin (2 powi 100)) () = Inr (Fin (2 powi 49))"
    by (simp only: float_rcond_value)
  then show ?thesis
    using h2 h3 h5 nn stopping_final_Ainvnorm [of "Fin (2 powi (- 149))"]
    by (intro conjI) (simp_all only: refl simp_thms)
qed

theorem gecondest_rcond_counterexample:
  "1 < m demo_A \<and> r_less (Fin 0) PInf \<and>
   final_Ainvnorm
     (gecondest_iterate 1 (stopping_collaborators (Fin (2 powi (- 1074)))) () (mpiSize demo_A)
        (tileRank demo_A (0, 0)) 1 (1::real)
        (TriangularMatrix Lower Unit demo_A) (TriangularMatrix Upper NonUnit demo_A)
        (initial_world (stopping_collaborators (Fin (2 powi (- 1074)))) demo_A)) 0
     = Some (Fin (2 powi (- 1074))) \<and>
   is_real_t double (Fin (2 powi (- 1074))) \<and>
   r_le (Fin 0) (Fin (2 powi (- 1074))) \<and>
   gecondest double (stopping_collaborators (Fin (2 powi (- 1074)))) 1 0 Norm_One demo_A PInf ()
     = Inr NaN \<and>
   \<not> r_le (Fin 0) NaN"
proof -
  have "is_real_t double (Fin (2 powi (- 1074)))"
    using fround_dyadic [of double "- 1074"] by (simp add: emin_def)
  moreover have "gecondest double (stopping_collaborators (Fin (2 powi (- 1074)))) 1 0 Norm_One
      demo_A PInf () = Inr NaN"
    by (simp add: gecondest_def run_defs stopping_collaborators_def demo_collaborators_def
        stopping_norm1est_def demo_A_def upt_rec eval_nat_numeral fround_def
        overflow_threshold_def)
  ultimately show ?thesis
    using stopping_final_Ainvnorm [of "Fin (2 powi (- 1074))"]
    by (simp add: demo_A_def r_le_def)
qed

section \<open>gecondest: the broadcasts\<close>

lemma phase_after_append:
  "phase_after r ph (xs @ ys) =
     (case phase_after r ph xs of None \<Rightarrow> None | Some ph' \<Rightarrow> phase_after r ph' ys)"
  by (induction xs arbitrary: ph) (auto split: option.splits)

lemma snd_estimate_round:
  "snd (MPI_Bcast_kase rr (MPI_Bcast_isave rr (call_norm1est c r)))
     = snd r @ [Call_norm1est, Call_Bcast_isave rr, Call_Bcast_kase rr]"
  by (simp add: MPI_Bcast_kase_def MPI_Bcast_isave_def call_norm1est_def)

lemma snd_call_trsm: "snd (call_trsm c side alpha T opts r) = snd r @ [Call_trsm]"
  by (simp add: call_trsm_def)

lemma agree_estimate_round:
  assumes "\<forall>w p. length (isave (proc (norm1est c w) p)) = 4"
  shows "agree n rr (fst (MPI_Bcast_kase rr (MPI_Bcast_isave rr (call_norm1est c r))))"
  using assms
  by (simp add: agree_def every_proc_def list_all_iff MPI_Bcast_kase_def MPI_Bcast_isave_def
      call_norm1est_def)

lemma agree_tests:
  assumes "agree n rr w"
  shows "every_proc n (\<lambda>l. kase l = v) w \<or> every_proc n (\<lambda>l. kase l \<noteq> v) w"
  using assms by (auto simp: agree_def every_proc_def list_all_iff)

lemma while_lockstep:
  assumes est: "\<forall>w p. length (isave (proc (norm1est c w) p)) = 4"
  shows "agree n rr (fst r) \<Longrightarrow> phase_after rr Idle (snd r) = Some Synced \<Longrightarrow>
    (case gecondest_while fuel c opts n rr kase1 alpha L U r of
       Finished r' \<Rightarrow> agree n rr (fst r') \<and> every_proc n (\<lambda>l. kase l = 0) (fst r')
                       \<and> phase_after rr Idle (snd r') = Some Idle
     | Fuel_spent r' \<Rightarrow> agree n rr (fst r') \<and> phase_after rr Idle (snd r') = Some Synced
     | Desynchronised r' \<Rightarrow> False)"
proof (induction fuel arbitrary: r)
  case 0
  then show ?case by simp
next
  case (Suc fuel)
  let ?r1 = "(fst r, snd r @ [Branch_on_kase])"
  have ph1: "phase_after rr Idle (snd ?r1) = Some Idle"
    using Suc.prems(2) by (simp add: phase_after_append)
  have t0: "every_proc n (\<lambda>l. kase l = 0) (fst r) \<or> every_proc n (\<lambda>l. kase l \<noteq> 0) (fst r)"
    using agree_tests [OF Suc.prems(1)] .
  have t1: "every_proc n (\<lambda>l. kase l = kase1) (fst r) \<or> every_proc n (\<lambda>l. kase l \<noteq> kase1) (fst r)"
    using agree_tests [OF Suc.prems(1)] .
  have next_ok: "\<And>Ta Tb.
     (case gecondest_while fuel c opts n rr kase1 alpha L U
        (MPI_Bcast_kase rr (MPI_Bcast_isave rr (call_norm1est c
           (call_trsm c Left alpha Tb opts (call_trsm c Left alpha Ta opts ?r1))))) of
       Finished r' \<Rightarrow> agree n rr (fst r') \<and> every_proc n (\<lambda>l. kase l = 0) (fst r')
                       \<and> phase_after rr Idle (snd r') = Some Idle
     | Fuel_spent r' \<Rightarrow> agree n rr (fst r') \<and> phase_after rr Idle (snd r') = Some Synced
     | Desynchronised r' \<Rightarrow> False)"
  proof -
    fix Ta Tb
    show "?thesis Ta Tb"
    proof (rule Suc.IH)
      show "agree n rr (fst (MPI_Bcast_kase rr (MPI_Bcast_isave rr (call_norm1est c
           (call_trsm c Left alpha Tb opts (call_trsm c Left alpha Ta opts ?r1))))))"
        by (rule agree_estimate_round [OF est])
      show "phase_after rr Idle (snd (MPI_Bcast_kase rr (MPI_Bcast_isave rr (call_norm1est c
           (call_trsm c Left alpha Tb opts (call_trsm c Left alpha Ta opts ?r1)))))) = Some Synced"
        using Suc.prems(2) by (simp add: snd_estimate_round snd_call_trsm phase_after_append)
    qed
  qed
  show ?case
    using t0 t1 ph1 Suc.prems(1) next_ok [where Ta = L and Tb = U]
      next_ok [where Ta = "conj_transpose U" and Tb = "conj_transpose L"]
    by (auto simp: Let_def)
qed

text \<open>
  C2. Provided the estimator leaves every process with a state vector of four elements:
  in every run of the estimator loop of \<open>gecondest\<close>, whatever the number of rounds, each
  call of \<open>norm1est\<close> (the cold-start call and the call that ends with request code 0
  included) is followed at once by the broadcast of \<open>isave\<close> and then by the broadcast of
  \<open>kase\<close>, both from the process that owns tile \<open>(0, 0)\<close>, and a branch on \<open>kase\<close> comes only
  right after the latter; after every round all processes hold the same \<open>kase\<close> and the same
  \<open>isave\<close>; no two processes ever take different branches, so that all leave the loop in the
  same round and \<open>gecondest\<close> does not stall.
\<close>

theorem gecondest_lockstep:
  assumes "\<forall>w p. length (isave (proc (norm1est c w) p)) = 4"
  shows "(case gecondest_iterate fuel c opts (mpiSize A) (tileRank A (0, 0)) kase_one alpha L U
                 (initial_world c A) of
            Finished r \<Rightarrow>
              agree (mpiSize A) (tileRank A (0, 0)) (fst r)
              \<and> every_proc (mpiSize A) (\<lambda>l. kase l = 0) (fst r)
              \<and> phase_after (tileRank A (0, 0)) Idle (snd r) = Some Idle
          | Fuel_spent r \<Rightarrow>
              agree (mpiSize A) (tileRank A (0, 0)) (fst r)
              \<and> phase_after (tileRank A (0, 0)) Idle (snd r) = Some Synced
          | Desynchronised r \<Rightarrow> False)
       \<and> tileRank (X (initial_world c A)) (0, 0) = tileRank A (0, 0)
       \<and> gecondest k c fuel me in_norm A Anorm opts \<noteq> Inl Stalled"
proof -
  let ?rr = "tileRank A (0, 0)"
  let ?r0 = "MPI_Bcast_kase ?rr (MPI_Bcast_isave ?rr (call_norm1est c (initial_world c A, [])))"
  have a0: "agree (mpiSize A) ?rr (fst ?r0)"
    by (rule agree_estimate_round [OF assms])
  have p0: "phase_after ?rr Idle (snd ?r0) = Some Synced"
    by (simp add: snd_estimate_round)
  have loop: "\<And>kase1 alpha L U.
     (case gecondest_iterate fuel c opts (mpiSize A) ?rr kase1 alpha L U (initial_world c A) of
            Finished r \<Rightarrow>
              agree (mpiSize A) ?rr (fst r)
              \<and> every_proc (mpiSize A) (\<lambda>l. kase l = 0) (fst r)
              \<and> phase_after ?rr Idle (snd r) = Some Idle
          | Fuel_spent r \<Rightarrow>
              agree (mpiSize A) ?rr (fst r) \<and> phase_after ?rr Idle (snd r) = Some Synced
          | Desynchronised r \<Rightarrow> False)"
    unfolding gecondest_iterate_def by (rule while_lockstep [OF assms a0 p0])
  have "gecondest k c fuel me in_norm A Anorm opts \<noteq> Inl Stalled"
    using loop [of 1 1 "TriangularMatrix Lower Unit A" "TriangularMatrix Upper NonUnit A"]
      loop [of 2 1 "TriangularMatrix Lower Unit A" "TriangularMatrix Upper NonUnit A"]
    by (auto simp: gecondest_def initial_world_def new_Matrix_def Let_def
        split: loop_result.splits if_splits)
  moreover have "tileRank (X (initial_world c A)) (0, 0) = tileRank A (0, 0)"
    by (simp add: initial_world_def new_Matrix_def)
  ultimately show ?thesis using loop [of kase_one alpha L U] by simp
qed

lemma demo_calls:
  "calls_of
     (gecondest_iterate 5 demo_collaborators () (mpiSize demo_A) (tileRank demo_A (0, 0)) 1
        (1::real) (TriangularMatrix Lower Unit demo_A) (TriangularMatrix Upper NonUnit demo_A)
        (initial_world demo_collaborators demo_A))
   = [Call_norm1est, Call_Bcast_isave 1, Call_Bcast_kase 1, Branch_on_kase,
      Call_trsm, Call_trsm, Call_norm1est, Call_Bcast_isave 1, Call_Bcast_kase 1, Branch_on_kase,
      Call_trsm, Call_trsm, Call_norm1est, Call_Bcast_isave 1, Call_Bcast_kase 1, Branch_on_kase]"
  by (simp add: calls_of_def run_defs demo_collaborators_def demo_norm1est_def demo_A_def
      upt_rec eval_nat_numeral)

theorem gecondest_lockstep_witness:
  "(\<forall>w p. length (isave (proc (norm1est demo_collaborators w) p)) = 4) \<and>
   (case gecondest_iterate 5 demo_collaborators () (mpiSize demo_A) (tileRank demo_A (0, 0)) 1
           (1::real) (TriangularMatrix Lower Unit demo_A) (TriangularMatrix Upper NonUnit demo_A)
           (initial_world demo_collaborators demo_A) of
      Finished r \<Rightarrow>
        agree (mpiSize demo_A) (tileRank demo_A (0, 0)) (fst r)
        \<and> every_proc (mpiSize demo_A) (\<lambda>l. kase l = 0) (fst r)
        \<and> phase_after (tileRank demo_A (0, 0)) Idle (snd r) = Some Idle
    | Fuel_spent r \<Rightarrow>
        agree (mpiSize demo_A) (tileRank demo_A (0, 0)) (fst r)
        \<and> phase_after (tileRank demo_A (0, 0)) Idle (snd r) = Some Synced
    | Desynchronised r \<Rightarrow> False) \<and>
   tileRank (X (initial_world demo_collaborators demo_A)) (0, 0) = 1 \<and>
   gecondest double demo_collaborators 5 0 Norm_One demo_A (Fin 8) () \<noteq> Inl Stalled \<and>
   calls_of
     (gecondest_iterate 5 demo_collaborators () (mpiSize demo_A) (tileRank demo_A (0, 0)) 1
        (1::real) (TriangularMatrix Lower Unit demo_A) (TriangularMatrix Upper NonUnit demo_A)
        (initial_world demo_collaborators demo_A))
   = [Call_norm1est, Call_Bcast_isave 1, Call_Bcast_kase 1, Branch_on_kase,
      Call_trsm, Call_trsm, Call_norm1est, Call_Bcast_isave 1, Call_Bcast_kase 1, Branch_on_kase,
      Call_trsm, Call_trsm, Call_norm1est, Call_Bcast_isave 1, Call_Bcast_kase 1, Branch_on_kase]"
proof -
  have est: "\<forall>w p. length (isave (proc (norm1est demo_collaborators w) p)) = 4"
    by (simp add: demo_collaborators_def demo_norm1est_def)
  show ?thesis
    using est demo_calls
      gecondest_lockstep [OF est, where fuel = 5 and opts = "()" and A = demo_A and kase_one = 1
        and alpha = 1 and L = "TriangularMatrix Lower Unit demo_A"
        and U = "TriangularMatrix Upper NonUnit demo_A" and k = double and me = 0
        and in_norm = Norm_One and Anorm = "Fin 8"]
    by (simp add: initial_world_def new_Matrix_def demo_A_def)
qed

section \<open>internal::trmm: the order of the tasks\<close>

lemma lessThan_2: "{..<2::nat} = {0, 1}"
  by auto

lemma int_interval_0_1: "{0..1::int} = {0, 1}"
  by auto

lemmas trmm_run_defs = trmm_def trmm_HostTask_def trmm_diag_tasks.simps trmm_gemm_tasks.simps
  trmm_gemm_loop.simps taskwait.simps tile_at_def trmm_A_def trmm_B_def blas_kernels_def
  blas_trmm_def blas_gemm_def tri_entry_def product_entry_def tile2_def lessThan_2

lemma demo_tasks:
  "trmm_diag_tasks trmm_B 0 @ trmm_gemm_loop trmm_B (nt trmm_A - 2)
   = [Diag_task 0, Diag_task 1, Gemm_task 1 0, Gemm_task 1 1, Gemm_task 0 0, Gemm_task 0 1]"
  by (simp add: trmm_diag_tasks.simps trmm_gemm_tasks.simps trmm_gemm_loop.simps trmm_A_def
      trmm_B_def)

lemma demo_creation_order:
  "map_option tile_values
     (last_row_tile (trmm blas_kernels creation_order Left NonUnit 2 trmm_A trmm_B 0) 0)
     = Some [30, 38, 62, 74]"
  "map_option tile_values
     (last_row_tile (trmm blas_kernels creation_order Left NonUnit 2 trmm_A trmm_B 0) 1)
     = Some [10, 16, 34, 44]"
  by (simp_all add: trmm_run_defs creation_order_def last_row_tile_def tile_values_def)

lemma demo_last_created_first:
  "map_option tile_values
     (last_row_tile (trmm blas_kernels last_created_first Left NonUnit 2 trmm_A trmm_B 0) 0)
     = Some [60, 80, 132, 172]"
  "map_option tile_values
     (last_row_tile (trmm blas_kernels last_created_first Left NonUnit 2 trmm_A trmm_B 0) 1)
     = Some [28, 40, 116, 140]"
  by (simp_all add: trmm_run_defs last_created_first_def last_row_tile_def tile_values_def)

lemma demo_claimed:
  "[claimed_entry 2 trmm_A trmm_B 0 0 0, claimed_entry 2 trmm_A trmm_B 0 0 1,
    claimed_entry 2 trmm_A trmm_B 0 1 0, claimed_entry 2 trmm_A trmm_B 0 1 1]
   = [30, 38, 62, 74]"
  "[claimed_entry 2 trmm_A trmm_B 1 0 0, claimed_entry 2 trmm_A trmm_B 1 0 1,
    claimed_entry 2 trmm_A trmm_B 1 1 0, claimed_entry 2 trmm_A trmm_B 1 1 1]
   = [10, 16, 34, 44]"
  by (simp_all add: claimed_entry_def trmm_A_def trmm_B_def product_entry_def tile2_def
      lessThan_2 int_interval_0_1)

text \<open>
  C1, which the code does not keep. On the matrices above, with \<open>Side::Left\<close>,
  \<open>Diag::NonUnit\<close> and \<open>alpha = 2\<close>, the claim names the tiles \<open>[30, 38, 62, 74]\<close> and
  \<open>[10, 16, 34, 44]\<close> for the last tile row of \<open>B\<close>. The call returns them when every task
  runs as soon as it is created. When the runtime runs the task created last first, which
  the pragmas allow since they order nothing, the accumulations come before the
  diagonal-block multiply of their column and the call returns \<open>[60, 80, 132, 172]\<close> and
  \<open>[28, 40, 116, 140]\<close>.
\<close>

theorem trmm_task_order_changes_result:
  "[claimed_entry 2 trmm_A trmm_B 0 0 0, claimed_entry 2 trmm_A trmm_B 0 0 1,
    claimed_entry 2 trmm_A trmm_B 0 1 0, claimed_entry 2 trmm_A trmm_B 0 1 1]
   = [30, 38, 62, 74] \<and>
   [claimed_entry 2 trmm_A trmm_B 1 0 0, claimed_entry 2 trmm_A trmm_B 1 0 1,
    claimed_entry 2 trmm_A trmm_B 1 1 0, claimed_entry 2 trmm_A trmm_B 1 1 1]
   = [10, 16, 34, 44] \<and>
   map_option tile_values
     (last_row_tile (trmm blas_kernels creation_order Left NonUnit 2 trmm_A trmm_B 0) 0)
     = Some [30, 38, 62, 74] \<and>
   map_option tile_values
     (last_row_tile (trmm blas_kernels creation_order Left NonUnit 2 trmm_A trmm_B 0) 1)
     = Some [10, 16, 34, 44] \<and>
   map_option tile_values
     (last_row_tile (trmm blas_kernels last_created_first Left NonUnit 2 trmm_A trmm_B 0) 0)
     = Some [60, 80, 132, 172] \<and>
   map_option tile_values
     (last_row_tile (trmm blas_kernels last_created_first Left NonUnit 2 trmm_A trmm_B 0) 1)
     = Some [28, 40, 116, 140]"
  using demo_claimed demo_creation_order demo_last_created_first by (intro conjI)

section \<open>internal::trmm: assertions, priority and frame\<close>

lemma tile_at_no_assert: "tile_at M i j \<noteq> Inl (Assertion_failed msg)"
  by (simp add: tile_at_def split: option.splits)

lemma run_task_frame:
  "run_task ker side diag alpha A B t = Inr B' \<Longrightarrow>
     mt B' = mt B \<and> nt B' = nt B \<and> (\<forall>i j. i \<noteq> mt B - 1 \<longrightarrow> tiles B' (i, j) = tiles B (i, j))"
  by (cases t) (auto split: sum.splits)

lemma run_task_no_assert:
  "run_task ker side diag alpha A B t \<noteq> Inl (Assertion_failed msg)"
proof (cases t)
  case (Diag_task n)
  then show ?thesis
    using tile_at_no_assert [of A 0 "nt A - 1" msg] tile_at_no_assert [of B "mt B - 1" n msg]
    by (auto split: sum.splits)
next
  case (Gemm_task k n)
  then show ?thesis
    using tile_at_no_assert [of A 0 k msg] tile_at_no_assert [of B k n msg]
      tile_at_no_assert [of B "mt B - 1" n msg]
    by (auto split: sum.splits)
qed

lemma taskwait_frame:
  "taskwait ker side diag alpha schedule A B waiting = Inr B' \<Longrightarrow>
     mt B' = mt B \<and> nt B' = nt B \<and> (\<forall>i j. i \<noteq> mt B - 1 \<longrightarrow> tiles B' (i, j) = tiles B (i, j))"
proof (induction ker side diag alpha schedule A B waiting rule: taskwait.induct)
  case (1 ker side diag alpha schedule A B waiting)
  show ?case
  proof (cases "waiting = []")
    case True
    then show ?thesis using "1.prems" by (subst (asm) taskwait.simps) simp
  next
    case False
    define i where "i = (case schedule of [] \<Rightarrow> 0 | c # cs \<Rightarrow> c mod length waiting)"
    from "1.prems" False obtain B1 where
      step: "run_task ker side diag alpha A B (waiting ! i) = Inr B1"
      and rest: "taskwait ker side diag alpha (tl schedule) A B1
                   (take i waiting @ drop (Suc i) waiting) = Inr B'"
      by (subst (asm) taskwait.simps) (auto simp: i_def Let_def split: sum.splits)
    show ?thesis
      using "1.IH" [OF False i_def step rest] run_task_frame [OF step] by simp
  qed
qed

lemma taskwait_no_assert:
  "taskwait ker side diag alpha schedule A B waiting \<noteq> Inl (Assertion_failed msg)"
proof (induction ker side diag alpha schedule A B waiting rule: taskwait.induct)
  case (1 ker side diag alpha schedule A B waiting)
  show ?case
  proof (cases "waiting = []")
    case True
    then show ?thesis by (subst taskwait.simps) simp
  next
    case False
    define i where "i = (case schedule of [] \<Rightarrow> 0 | c # cs \<Rightarrow> c mod length waiting)"
    show ?thesis
      using False "1.IH" [OF False i_def]
        run_task_no_assert [of ker side diag alpha A B "waiting ! i" msg]
      by (subst taskwait.simps) (auto simp: i_def Let_def split: sum.splits)
  qed
qed

lemma demo_trmm_run:
  "trmm blas_kernels last_created_first Left NonUnit 2 trmm_A trmm_B 0
   = Inr (trmm_A, trmm_B_after)"
proof -
  have "\<exists>B'. trmm (blas_kernels :: (real, real Tile) Tile_blas) last_created_first Left NonUnit 2
          trmm_A trmm_B 0 = Inr (trmm_A, B')"
    by (simp add: trmm_run_defs last_created_first_def)
  then show ?thesis by (auto simp: trmm_B_after_def)
qed

text \<open>
  C10. Whatever the order in which the tasks run, a call that returns leaves \<open>A\<close> as it
  was, and \<open>B\<close> with its tile counts and with every tile outside its last tile row as it was
  on entry.
\<close>

theorem trmm_frame:
  "trmm ker schedule side diag alpha A B priority = Inr (A', B') \<Longrightarrow>
     A' = A \<and> mt B' = mt B \<and> nt B' = nt B
     \<and> (\<forall>i j. i \<noteq> mt B - 1 \<longrightarrow> tiles B' (i, j) = tiles B (i, j))"
proof -
  assume run: "trmm ker schedule side diag alpha A B priority = Inr (A', B')"
  then have tasks: "taskwait ker side diag alpha schedule A B
        (trmm_diag_tasks B 0 @ trmm_gemm_loop B (nt A - 2)) = Inr B'"
    and A: "A' = A"
    by (auto simp: trmm_def trmm_HostTask_def split: if_splits sum.splits)
  show ?thesis
    using A taskwait_frame [OF tasks] by simp
qed

theorem trmm_frame_witness:
  "trmm blas_kernels last_created_first Left NonUnit 2 trmm_A trmm_B 0
     = Inr (trmm_A, trmm_B_after) \<and>
   mt trmm_B_after = mt trmm_B \<and> nt trmm_B_after = nt trmm_B \<and>
   (1::int) \<noteq> mt trmm_B - 1 \<and>
   tiles trmm_B_after (1, 0) = tiles trmm_B (1, 0) \<and>
   tiles trmm_B_after (0, 1) = Some (tile2 General 1 1 1 1)"
proof -
  have "tiles trmm_B (0, 1) = Some (tile2 General 1 1 1 1)" "(1::int) \<noteq> mt trmm_B - 1"
    "(0::int) \<noteq> mt trmm_B - 1"
    by (simp_all add: trmm_B_def)
  then show ?thesis
    using demo_trmm_run trmm_frame [OF demo_trmm_run] by simp
qed

text \<open>
  C8. When \<open>A.mt() == 1\<close> and \<open>A.nt() == B.mt()\<close> hold, no assertion of the call fails. When
  one of them does not hold, the call ends in a failed assertion, which aborts: no matrix is
  returned.
\<close>

theorem trmm_assertions:
  "(mt A = 1 \<and> nt A = mt B \<longrightarrow>
      (\<forall>msg. trmm ker schedule side diag alpha A B priority \<noteq> Inl (Assertion_failed msg)))
   \<and> (mt A \<noteq> 1 \<or> nt A \<noteq> mt B \<longrightarrow>
      (\<exists>msg. trmm ker schedule side diag alpha A B priority = Inl (Assertion_failed msg)))"
proof -
  have "trmm ker schedule side diag alpha A B priority \<noteq> Inl (Assertion_failed msg)"
    if "mt A = 1" "nt A = mt B" for msg
    using that taskwait_no_assert [of ker side diag alpha schedule A B _ msg]
    by (auto simp: trmm_def trmm_HostTask_def split: sum.splits)
  then show ?thesis by (auto simp: trmm_def trmm_HostTask_def)
qed

theorem trmm_assertions_witness:
  "mt trmm_A = 1 \<and> nt trmm_A = mt trmm_B \<and>
   (\<forall>msg. trmm blas_kernels last_created_first Left NonUnit (2::real) trmm_A trmm_B 0
           \<noteq> Inl (Assertion_failed msg)) \<and>
   mt trmm_B \<noteq> 1 \<and>
   (\<exists>msg. trmm blas_kernels last_created_first Left NonUnit (2::real) trmm_B trmm_A 0
           = Inl (Assertion_failed msg))"
proof -
  have "mt trmm_A = 1" "nt trmm_A = mt trmm_B" "mt trmm_B \<noteq> 1"
    by (simp_all add: trmm_A_def trmm_B_def)
  then show ?thesis
    using trmm_assertions [of trmm_A trmm_B blas_kernels last_created_first Left NonUnit "2::real" 0]
      trmm_assertions [of trmm_B trmm_A blas_kernels last_created_first Left NonUnit "2::real" 0]
    by simp
qed

text \<open>
  C9. The priority has no influence on the result: it is handed through the dispatcher
  and read nowhere, the pragmas have no \<open>priority\<close> clause. Two calls that differ only in
  their priority, their tasks run in the same order, return the same.
\<close>

theorem trmm_priority:
  "trmm ker schedule side diag alpha A B p1 = trmm ker schedule side diag alpha A B p2"
  by (simp add: trmm_def trmm_HostTask_def)

theorem trmm_priority_witness:
  "trmm blas_kernels creation_order Left NonUnit (2::real) trmm_A trmm_B 0
   = trmm blas_kernels creation_order Left NonUnit 2 trmm_A trmm_B 7"
  using trmm_priority [of blas_kernels creation_order Left NonUnit "2::real" trmm_A trmm_B 0 7] .

end
